theory Spec2Isabelle
  imports Main "HOL-Library.Monad_Syntax"
begin

section \<open>Python values as they come out of \<open>json.load\<close>\<close>

text \<open>
  The validator of \<^verbatim>\<open>scripts/validate_asl.py\<close> works on whatever \<^verbatim>\<open>json.load\<close>
  returns. A Python string is a list of code points, so that the report's markers
  (beyond Latin-1) and the \<^verbatim>\<open>\uXXXX\<close> escapes of \<^verbatim>\<open>json.dumps\<close> are exact;
  \<open>lit\<close> embeds an ASCII literal. A dict is an association list in insertion order
  (\<^verbatim>\<open>json.load\<close> yields distinct keys). JSON numbers are the integers: documents with
  fractional numbers are outside this model.

  An exception that leaves a method is the result \<open>None\<close>; the validator catches
  none after the load, so the kind of the exception never matters to a caller.
\<close>

type_synonym pystr = "nat list"

definition lit :: "string \<Rightarrow> pystr" where
  "lit s = map of_char s"

datatype json =
    JNull
  | JBool bool
  | JInt int
  | JStr pystr
  | JArr "json list"
  | JObj "(pystr \<times> json) list"

text \<open>\<^verbatim>\<open>bool(v)\<close>, as \<^verbatim>\<open>if v\<close> and \<^verbatim>\<open>not v\<close> use it.\<close>

fun truthy :: "json \<Rightarrow> bool" where
  "truthy JNull = False"
| "truthy (JBool b) = b"
| "truthy (JInt n) = (n \<noteq> 0)"
| "truthy (JStr s) = (s \<noteq> [])"
| "truthy (JArr xs) = (xs \<noteq> [])"
| "truthy (JObj kvs) = (kvs \<noteq> [])"

text \<open>Lists and dicts are unhashable: a set or dict membership test on them raises.\<close>

fun hashable :: "json \<Rightarrow> bool" where
  "hashable (JArr xs) = False"
| "hashable (JObj kvs) = False"
| "hashable v = True"

fun is_dict :: "json \<Rightarrow> bool" where
  "is_dict (JObj kvs) = True"
| "is_dict v = False"

fun is_list :: "json \<Rightarrow> bool" where
  "is_list (JArr xs) = True"
| "is_list v = False"

text \<open>Python's \<^verbatim>\<open>==\<close>: \<^verbatim>\<open>True == 1\<close>, lists by position, dicts by key.\<close>

fun py_eq :: "json \<Rightarrow> json \<Rightarrow> bool" where
  "py_eq JNull JNull = True"
| "py_eq (JBool a) (JBool b) = (a = b)"
| "py_eq (JBool a) (JInt n) = ((if a then 1 else 0) = n)"
| "py_eq (JInt n) (JBool a) = ((if a then 1 else 0) = n)"
| "py_eq (JInt m) (JInt n) = (m = n)"
| "py_eq (JStr s) (JStr t) = (s = t)"
| "py_eq (JArr xs) (JArr ys) = list_all2 py_eq xs ys"
| "py_eq (JObj a) (JObj b) =
     (length a = length b \<and>
      list_all (\<lambda>(k, v). list_ex (\<lambda>(k', w). k' = k \<and> py_eq v w) b) a)"
| "py_eq v w = False"

text \<open>\<^verbatim>\<open>sub in s\<close> on strings: \<open>sub\<close> occurs as a contiguous slice.\<close>

fun substring :: "pystr \<Rightarrow> pystr \<Rightarrow> bool" where
  "substring sub [] = (sub = [])"
| "substring sub (c # cs) = (take (length sub) (c # cs) = sub \<or> substring sub cs)"

text \<open>
  \<^verbatim>\<open>x in c\<close>. A dict tests its keys (which are strings) and hashes \<open>x\<close>; a list
  compares with \<^verbatim>\<open>==\<close>; a string wants a string; anything else is not iterable.
\<close>

fun py_in :: "json \<Rightarrow> json \<Rightarrow> bool option" where
  "py_in x (JObj kvs) =
     (if hashable x then Some (case x of JStr k \<Rightarrow> k \<in> set (map fst kvs) | _ \<Rightarrow> False)
      else None)"
| "py_in x (JArr ys) = Some (list_ex (py_eq x) ys)"
| "py_in x (JStr s) = (case x of JStr sub \<Rightarrow> Some (substring sub s) | _ \<Rightarrow> None)"
| "py_in x c = None"

text \<open>\<^verbatim>\<open>x in S\<close> for a Python set \<open>S\<close> of strings.\<close>

definition in_str_set :: "json \<Rightarrow> pystr set \<Rightarrow> bool option" where
  "in_str_set x S =
     (if hashable x then Some (case x of JStr k \<Rightarrow> k \<in> S | _ \<Rightarrow> False) else None)"

text \<open>
  \<^verbatim>\<open>c[k]\<close> with a string key: only a dict holding the key answers; a missing key,
  a list or a string indexed by a string, and a scalar all raise.
\<close>

fun py_getitem :: "json \<Rightarrow> pystr \<Rightarrow> json option" where
  "py_getitem (JObj kvs) k = map_of kvs k"
| "py_getitem c k = None"

text \<open>\<^verbatim>\<open>d.get(k, default)\<close>: only dicts have \<^verbatim>\<open>get\<close>.\<close>

fun dict_get :: "json \<Rightarrow> pystr \<Rightarrow> json \<Rightarrow> json option" where
  "dict_get (JObj kvs) k dflt = Some (case map_of kvs k of None \<Rightarrow> dflt | Some x \<Rightarrow> x)"
| "dict_get c k dflt = None"

text \<open>\<^verbatim>\<open>d.items()\<close> and \<^verbatim>\<open>d.keys()\<close>: only dicts have them.\<close>

fun py_items :: "json \<Rightarrow> (pystr \<times> json) list option" where
  "py_items (JObj kvs) = Some kvs"
| "py_items c = None"

fun py_keys :: "json \<Rightarrow> pystr list option" where
  "py_keys (JObj kvs) = Some (map fst kvs)"
| "py_keys c = None"

text \<open>
  \<^verbatim>\<open>for x in c\<close>: a list gives its elements, a dict its keys, a string its
  characters; a scalar is not iterable.
\<close>

fun py_iter :: "json \<Rightarrow> json list option" where
  "py_iter (JArr xs) = Some xs"
| "py_iter (JObj kvs) = Some (map (\<lambda>kv. JStr (fst kv)) kvs)"
| "py_iter (JStr s) = Some (map (\<lambda>c. JStr [c]) s)"
| "py_iter c = None"

text \<open>A loop whose body may raise: the first exception ends it.\<close>

fun fold_opt :: "('a \<Rightarrow> 's \<Rightarrow> 's option) \<Rightarrow> 'a list \<Rightarrow> 's \<Rightarrow> 's option" where
  "fold_opt f [] s = Some s"
| "fold_opt f (x # xs) s = (case f x s of None \<Rightarrow> None | Some s' \<Rightarrow> fold_opt f xs s')"

subsection \<open>Formatting\<close>

text \<open>\<^verbatim>\<open>str(n)\<close> for a count or an index, and for an integer.\<close>

function dec_nat :: "nat \<Rightarrow> pystr" where
  "dec_nat n = (if n < 10 then [48 + n] else dec_nat (n div 10) @ [48 + n mod 10])"
  by pat_completeness auto
termination
  by (relation "measure id") auto

declare dec_nat.simps [simp del]

definition dec_int :: "int \<Rightarrow> pystr" where
  "dec_int i = (if i < 0 then 45 # dec_nat (nat (- i)) else dec_nat (nat i))"

text \<open>
  \<^verbatim>\<open>str(v)\<close> inside an f-string. For a list or a dict it is the \<^verbatim>\<open>repr\<close>, which
  depends on the Unicode tables (\<^verbatim>\<open>str.isprintable\<close>); it is the parameter \<open>crepr\<close>.
  \<open>py_str_scalar\<close> is \<^verbatim>\<open>str\<close> where the value has already passed a hash-based
  membership test, so it is no list and no dict.
\<close>

fun py_str_scalar :: "json \<Rightarrow> pystr" where
  "py_str_scalar JNull = lit ''None''"
| "py_str_scalar (JBool b) = (if b then lit ''True'' else lit ''False'')"
| "py_str_scalar (JInt i) = dec_int i"
| "py_str_scalar (JStr s) = s"
| "py_str_scalar v = []"

definition py_str :: "(json \<Rightarrow> pystr) \<Rightarrow> json \<Rightarrow> pystr" where
  "py_str crepr v = (if hashable v then py_str_scalar v else crepr v)"

text \<open>\<^verbatim>\<open>sep.join(xs)\<close>.\<close>

fun join :: "pystr \<Rightarrow> pystr list \<Rightarrow> pystr" where
  "join sep [] = []"
| "join sep [x] = x"
| "join sep (x # y # ys) = x @ sep @ join sep (y # ys)"

text \<open>\<^verbatim>\<open>'{x}'\<close> inside an f-string: the text between two apostrophes.\<close>

definition quoted :: "pystr \<Rightarrow> pystr" where
  "quoted s = 39 # s @ [39]"

text \<open>\<^verbatim>\<open>k in d\<close> and \<^verbatim>\<open>d.get(k, default)\<close> where \<open>d\<close> is known to be a dict.\<close>

definition has_key :: "(pystr \<times> json) list \<Rightarrow> pystr \<Rightarrow> bool" where
  "has_key d k = (k \<in> set (map fst d))"

definition get :: "(pystr \<times> json) list \<Rightarrow> pystr \<Rightarrow> json \<Rightarrow> json" where
  "get d k dflt = (case map_of d k of None \<Rightarrow> dflt | Some x \<Rightarrow> x)"

section \<open>The validator\<close>

text \<open>\<^verbatim>\<open>class ASLValidator\<close>: the object's fields, and \<^verbatim>\<open>__init__\<close>.\<close>

record validator =
  file_path :: pystr
  errors :: "pystr list"
  warnings :: "pystr list"
  info :: "pystr list"
  asl_definition :: json

definition init :: "pystr \<Rightarrow> validator" where
  "init path = \<lparr>file_path = path, errors = [], warnings = [], info = [],
                 asl_definition = JObj []\<rparr>"

definition add_error :: "pystr \<Rightarrow> validator \<Rightarrow> validator" where
  "add_error m v = v\<lparr>errors := errors v @ [m]\<rparr>"

definition add_warning :: "pystr \<Rightarrow> validator \<Rightarrow> validator" where
  "add_warning m v = v\<lparr>warnings := warnings v @ [m]\<rparr>"

definition add_info :: "pystr \<Rightarrow> validator \<Rightarrow> validator" where
  "add_info m v = v\<lparr>info := info v @ [m]\<rparr>"

definition VALID_STATE_TYPES :: "pystr set" where
  "VALID_STATE_TYPES = {lit ''Task'', lit ''Pass'', lit ''Choice'', lit ''Wait'',
     lit ''Succeed'', lit ''Fail'', lit ''Parallel'', lit ''Map''}"

definition TERMINAL_STATE_TYPES :: "pystr set" where
  "TERMINAL_STATE_TYPES = {lit ''Succeed'', lit ''Fail''}"

definition NO_TRANSITION_TYPES :: "pystr set" where
  "NO_TRANSITION_TYPES = {lit ''Choice'', lit ''Succeed'', lit ''Fail''}"

subsection \<open>\<^verbatim>\<open>load\<close>\<close>

text \<open>
  What opening and parsing the file can do: the environment of \<^verbatim>\<open>load\<close>. The
  two messages are \<^verbatim>\<open>str(e)\<close> of the exception caught.
\<close>

datatype load_outcome =
    Parsed json
  | JSONDecodeError pystr
  | FileNotFoundError
  | OtherException pystr

fun load :: "load_outcome \<Rightarrow> validator \<Rightarrow> bool \<times> validator" where
  "load (Parsed d) v = (True, v\<lparr>asl_definition := d\<rparr>)"
| "load (JSONDecodeError e) v = (False, add_error (lit ''Invalid JSON syntax: '' @ e) v)"
| "load FileNotFoundError v = (False, add_error (lit ''File not found: '' @ file_path v) v)"
| "load (OtherException e) v = (False, add_error (lit ''Error reading file: '' @ e) v)"

subsection \<open>Structural checks\<close>

definition validate_required_fields :: "validator \<Rightarrow> validator option" where
  "validate_required_fields v = do {
     has_start \<leftarrow> py_in (JStr (lit ''StartAt'')) (asl_definition v);
     let v1 = (if \<not> has_start
               then add_error (lit ''Missing required field: '' @ quoted (lit ''StartAt'')) v
               else v);
     has_states \<leftarrow> py_in (JStr (lit ''States'')) (asl_definition v);
     if \<not> has_states
     then Some (add_error (lit ''Missing required field: '' @ quoted (lit ''States'')) v1)
     else do {
       states \<leftarrow> py_getitem (asl_definition v) (lit ''States'');
       case states of
         JObj kvs \<Rightarrow>
           Some (if length kvs = 0
                 then add_error (quoted (lit ''States'') @ lit '' cannot be empty'') v1
                 else v1)
       | _ \<Rightarrow> Some (add_error (quoted (lit ''States'') @ lit '' must be an object'') v1)
     }
   }"

text \<open>
  \<^verbatim>\<open>_validate_start_at\<close>. The \<^verbatim>\<open>or\<close> short-circuits, so a definition without
  \<^verbatim>\<open>StartAt\<close> is never asked for \<^verbatim>\<open>States\<close>.
\<close>

definition validate_start_at :: "(json \<Rightarrow> pystr) \<Rightarrow> validator \<Rightarrow> validator option" where
  "validate_start_at crepr v = do {
     has_start \<leftarrow> py_in (JStr (lit ''StartAt'')) (asl_definition v);
     if \<not> has_start then Some v
     else do {
       has_states \<leftarrow> py_in (JStr (lit ''States'')) (asl_definition v);
       if \<not> has_states then Some v
       else do {
         start_at \<leftarrow> py_getitem (asl_definition v) (lit ''StartAt'');
         states \<leftarrow> dict_get (asl_definition v) (lit ''States'') (JObj []);
         found \<leftarrow> py_in start_at states;
         Some (if \<not> found
               then add_error (quoted (lit ''StartAt'') @
                      lit '' references non-existent state: '' @
                      quoted (py_str crepr start_at)) v
               else v)
       }
     }
   }"

definition validate_choice_state ::
  "pystr \<Rightarrow> (pystr \<times> json) list \<Rightarrow> validator \<Rightarrow> validator option" where
  "validate_choice_state state_name state_def v =
     (if \<not> has_key state_def (lit ''Choices'')
      then Some (add_error (lit ''Choice state '' @ quoted state_name @
                   lit '' missing required '' @ quoted (lit ''Choices'') @ lit '' field'') v)
      else case get state_def (lit ''Choices'') JNull of
        JArr choices \<Rightarrow> do {
          let v1 = (if length choices = 0
                    then add_error (lit ''Choice state '' @ quoted state_name @ lit '': '' @
                           quoted (lit ''Choices'') @ lit '' array cannot be empty'') v
                    else v);
          v2 \<leftarrow> fold_opt (\<lambda>(i, choice) w. do {
                  has_next \<leftarrow> py_in (JStr (lit ''Next'')) choice;
                  Some (if \<not> has_next
                        then add_error (lit ''Choice state '' @ quoted state_name @
                               lit '' choice['' @ dec_nat i @ lit ''] missing '' @
                               quoted (lit ''Next'') @ lit '' field'') w
                        else w)
                }) (enumerate 0 choices) v1;
          Some (if \<not> has_key state_def (lit ''Default'')
                then add_warning (lit ''Choice state '' @ quoted state_name @
                       lit '' has no '' @ quoted (lit ''Default'') @
                       lit '' - may fail at runtime if no choice matches'') v2
                else v2)
        }
      | _ \<Rightarrow> Some (add_error (lit ''Choice state '' @ quoted state_name @ lit '': '' @
                      quoted (lit ''Choices'') @ lit '' must be an array'') v))"

definition validate_task_state ::
  "pystr \<Rightarrow> (pystr \<times> json) list \<Rightarrow> validator \<Rightarrow> validator" where
  "validate_task_state state_name state_def v =
     (let v1 = (if \<not> has_key state_def (lit ''Resource'')
                then add_error (lit ''Task state '' @ quoted state_name @
                       lit '' missing required '' @ quoted (lit ''Resource'') @
                       lit '' field'') v
                else v);
          has_catch = has_key state_def (lit ''Catch'');
          has_retry = has_key state_def (lit ''Retry'')
      in if \<not> has_catch \<and> \<not> has_retry
         then add_warning (lit ''Task state '' @ quoted state_name @
                lit '' has no error handling (Catch/Retry)'') v1
         else v1)"

definition wait_fields :: "pystr list" where
  "wait_fields = [lit ''Seconds'', lit ''SecondsPath'', lit ''Timestamp'', lit ''TimestampPath'']"

definition validate_wait_state ::
  "pystr \<Rightarrow> (pystr \<times> json) list \<Rightarrow> validator \<Rightarrow> validator" where
  "validate_wait_state state_name state_def v =
     (let has_wait_field = list_ex (\<lambda>f. has_key state_def f) wait_fields
      in if \<not> has_wait_field
         then add_error (lit ''Wait state '' @ quoted state_name @
                lit '' must have one of: '' @ join (lit '', '') wait_fields) v
         else v)"

definition validate_map_state ::
  "pystr \<Rightarrow> (pystr \<times> json) list \<Rightarrow> validator \<Rightarrow> validator" where
  "validate_map_state state_name state_def v =
     (let has_item_processor = has_key state_def (lit ''ItemProcessor'');
          has_iterator = has_key state_def (lit ''Iterator'')
      in if \<not> has_item_processor \<and> \<not> has_iterator
         then add_error (lit ''Map state '' @ quoted state_name @ lit '' missing '' @
                quoted (lit ''ItemProcessor'') @ lit '' or '' @ quoted (lit ''Iterator'')) v
         else v)"

definition validate_parallel_state ::
  "pystr \<Rightarrow> (pystr \<times> json) list \<Rightarrow> validator \<Rightarrow> validator" where
  "validate_parallel_state state_name state_def v =
     (if \<not> has_key state_def (lit ''Branches'')
      then add_error (lit ''Parallel state '' @ quoted state_name @
             lit '' missing required '' @ quoted (lit ''Branches'') @ lit '' field'') v
      else case get state_def (lit ''Branches'') JNull of
        JArr (b # bs) \<Rightarrow> v
      | _ \<Rightarrow> add_error (lit ''Parallel state '' @ quoted state_name @ lit '': '' @
                 quoted (lit ''Branches'') @ lit '' must be a non-empty array'') v)"

text \<open>
  The body of the loop of \<^verbatim>\<open>_validate_states\<close>, one state. After the two
  \<^verbatim>\<open>continue\<close>s on the type, \<open>state_type\<close> is one of the eight strings.
\<close>

definition validate_state :: "pystr \<times> json \<Rightarrow> validator \<Rightarrow> validator option" where
  "validate_state item v =
     (case item of (state_name, JObj state_def) \<Rightarrow>
        (let state_type = get state_def (lit ''Type'') JNull in
         if \<not> truthy state_type
         then Some (add_error (lit ''State '' @ quoted state_name @ lit '' missing '' @
                      quoted (lit ''Type'') @ lit '' field'') v)
         else do {
           valid \<leftarrow> in_str_set state_type VALID_STATE_TYPES;
           if \<not> valid
           then Some (add_error (lit ''State '' @ quoted state_name @
                        lit '' has invalid type: '' @ quoted (py_str_scalar state_type)) v)
           else do {
             no_transition \<leftarrow> in_str_set state_type NO_TRANSITION_TYPES;
             let has_end = get state_def (lit ''End'') (JBool False);
             let has_next = has_key state_def (lit ''Next'');
             let v1 = (if \<not> no_transition \<and> \<not> truthy has_end \<and> \<not> has_next
                       then add_error (lit ''State '' @ quoted state_name @ lit '' (Type: '' @
                              py_str_scalar state_type @ lit '') must have '' @
                              quoted (lit ''End: true'') @ lit '' or '' @
                              quoted (lit ''Next'')) v
                       else v);
             if py_eq state_type (JStr (lit ''Choice''))
               then validate_choice_state state_name state_def v1
             else if py_eq state_type (JStr (lit ''Task''))
               then Some (validate_task_state state_name state_def v1)
             else if py_eq state_type (JStr (lit ''Wait''))
               then Some (validate_wait_state state_name state_def v1)
             else if py_eq state_type (JStr (lit ''Map''))
               then Some (validate_map_state state_name state_def v1)
             else if py_eq state_type (JStr (lit ''Parallel''))
               then Some (validate_parallel_state state_name state_def v1)
             else Some v1
           }
         })
      | (state_name, _) \<Rightarrow>
          Some (add_error (lit ''State '' @ quoted state_name @ lit '' must be an object'') v))"

definition validate_states :: "validator \<Rightarrow> validator option" where
  "validate_states v = do {
     states \<leftarrow> dict_get (asl_definition v) (lit ''States'') (JObj []);
     items \<leftarrow> py_items states;
     fold_opt validate_state items v
   }"

subsection \<open>References\<close>

text \<open>
  The loops over \<^verbatim>\<open>Choices\<close> and over \<^verbatim>\<open>Catch\<close> in
  \<^verbatim>\<open>_validate_state_references\<close> have one shape: for each rule, the \<^verbatim>\<open>and\<close>
  reads \<^verbatim>\<open>rule["Next"]\<close> only when \<^verbatim>\<open>"Next" in rule\<close>. They differ in the message,
  \<open>mk\<close>.
\<close>

definition check_rule_refs ::
  "(nat \<Rightarrow> json \<Rightarrow> pystr) \<Rightarrow> pystr set \<Rightarrow> json list \<Rightarrow> validator \<Rightarrow> validator option" where
  "check_rule_refs mk valid_states rules v =
     fold_opt (\<lambda>(i, rule) w. do {
        has_next \<leftarrow> py_in (JStr (lit ''Next'')) rule;
        if has_next then do {
          target \<leftarrow> py_getitem rule (lit ''Next'');
          known \<leftarrow> in_str_set target valid_states;
          Some (if \<not> known then add_error (mk i target) w else w)
        } else Some w
      }) (enumerate 0 rules) v"

definition next_ref_message :: "pystr \<Rightarrow> json \<Rightarrow> pystr" where
  "next_ref_message state_name target =
     lit ''State '' @ quoted state_name @ lit '' '' @ quoted (lit ''Next'') @
     lit '' references non-existent state: '' @ quoted (py_str_scalar target)"

definition choice_ref_message :: "pystr \<Rightarrow> nat \<Rightarrow> json \<Rightarrow> pystr" where
  "choice_ref_message state_name i target =
     lit ''Choice state '' @ quoted state_name @ lit '' choice['' @ dec_nat i @
     lit ''] references non-existent state: '' @ quoted (py_str_scalar target)"

definition default_ref_message :: "pystr \<Rightarrow> json \<Rightarrow> pystr" where
  "default_ref_message state_name target =
     lit ''Choice state '' @ quoted state_name @ lit '' '' @ quoted (lit ''Default'') @
     lit '' references non-existent state: '' @ quoted (py_str_scalar target)"

definition catch_ref_message :: "pystr \<Rightarrow> nat \<Rightarrow> json \<Rightarrow> pystr" where
  "catch_ref_message state_name i target =
     lit ''State '' @ quoted state_name @ lit '' Catch['' @ dec_nat i @
     lit ''] references non-existent state: '' @ quoted (py_str_scalar target)"

text \<open>The body of the loop of \<^verbatim>\<open>_validate_state_references\<close>, one state.\<close>

definition validate_state_refs ::
  "pystr set \<Rightarrow> pystr \<times> json \<Rightarrow> validator \<Rightarrow> validator option" where
  "validate_state_refs valid_states item v =
     (case item of (state_name, JObj state_def) \<Rightarrow> do {
        v1 \<leftarrow> (if has_key state_def (lit ''Next'') then do {
                 let next_state = get state_def (lit ''Next'') JNull;
                 known \<leftarrow> in_str_set next_state valid_states;
                 Some (if \<not> known then add_error (next_ref_message state_name next_state) v
                       else v)
               } else Some v);
        v2 \<leftarrow> (if py_eq (get state_def (lit ''Type'') JNull) (JStr (lit ''Choice'')) then do {
                 choices \<leftarrow> py_iter (get state_def (lit ''Choices'') (JArr []));
                 w \<leftarrow> check_rule_refs (choice_ref_message state_name) valid_states choices v1;
                 if has_key state_def (lit ''Default'') then do {
                   let dflt = get state_def (lit ''Default'') JNull;
                   known \<leftarrow> in_str_set dflt valid_states;
                   Some (if \<not> known then add_error (default_ref_message state_name dflt) w
                         else w)
                 } else Some w
               } else Some v1);
        catches \<leftarrow> py_iter (get state_def (lit ''Catch'') (JArr []));
        check_rule_refs (catch_ref_message state_name) valid_states catches v2
      }
      | (state_name, _) \<Rightarrow> Some v)"

definition validate_state_references :: "validator \<Rightarrow> validator option" where
  "validate_state_references v = do {
     states \<leftarrow> dict_get (asl_definition v) (lit ''States'') (JObj []);
     keys \<leftarrow> py_keys states;
     items \<leftarrow> py_items states;
     fold_opt (validate_state_refs (set keys)) items v
   }"

subsection \<open>Terminal states\<close>

definition no_terminal_message :: pystr where
  "no_terminal_message =
     lit ''No terminal state found - workflow will never complete (need '' @
     quoted (lit ''End: true'') @ lit '', '' @ quoted (lit ''Succeed'') @ lit '', or '' @
     quoted (lit ''Fail'') @ lit '' state)''"

text \<open>
  The loop body of \<^verbatim>\<open>_validate_terminal_states\<close>: the accumulator is the list
  \<^verbatim>\<open>terminal_states\<close>. The set membership is evaluated before the \<^verbatim>\<open>or\<close>, so an
  unhashable \<^verbatim>\<open>Type\<close> raises whatever \<^verbatim>\<open>End\<close> is.
\<close>

definition collect_terminal :: "pystr \<times> json \<Rightarrow> pystr list \<Rightarrow> pystr list option" where
  "collect_terminal item terminal_states =
     (case item of (state_name, JObj state_def) \<Rightarrow> do {
        let state_type = get state_def (lit ''Type'') (JStr []);
        is_terminal_type \<leftarrow> in_str_set state_type TERMINAL_STATE_TYPES;
        Some (if is_terminal_type \<or> truthy (get state_def (lit ''End'') (JBool False))
              then terminal_states @ [state_name] else terminal_states)
      }
      | (state_name, _) \<Rightarrow> Some terminal_states)"

definition validate_terminal_states :: "validator \<Rightarrow> validator option" where
  "validate_terminal_states v = do {
     states \<leftarrow> dict_get (asl_definition v) (lit ''States'') (JObj []);
     items \<leftarrow> py_items states;
     terminal_states \<leftarrow> fold_opt collect_terminal items [];
     Some (if terminal_states = [] then add_error no_terminal_message v else v)
   }"

subsection \<open>Reachability\<close>

text \<open>The targets a list of \<^verbatim>\<open>Choices\<close> or \<^verbatim>\<open>Catch\<close> rules adds to \<^verbatim>\<open>next_states\<close>.\<close>

fun rule_targets :: "json list \<Rightarrow> json list option" where
  "rule_targets [] = Some []"
| "rule_targets (rule # rules) = do {
     has_next \<leftarrow> py_in (JStr (lit ''Next'')) rule;
     here \<leftarrow> (if has_next then map_option (\<lambda>t. [t]) (py_getitem rule (lit ''Next''))
              else Some []);
     rest \<leftarrow> rule_targets rules;
     Some (here @ rest)
   }"

text \<open>
  \<^verbatim>\<open>next_states\<close> for one visited state, in the order the code appends. The loop
  over \<^verbatim>\<open>Branches\<close> adds nothing, but iterating the value can raise.
\<close>

definition collect_next_states :: "(pystr \<times> json) list \<Rightarrow> json list option" where
  "collect_next_states state_def = do {
     let ns1 = (if has_key state_def (lit ''Next'')
                then [get state_def (lit ''Next'') JNull] else []);
     ns2 \<leftarrow> (if py_eq (get state_def (lit ''Type'') JNull) (JStr (lit ''Choice'')) then do {
               choices \<leftarrow> py_iter (get state_def (lit ''Choices'') (JArr []));
               ts \<leftarrow> rule_targets choices;
               Some (ns1 @ ts @ (if has_key state_def (lit ''Default'')
                                 then [get state_def (lit ''Default'') JNull] else []))
             } else Some ns1);
     catches \<leftarrow> py_iter (get state_def (lit ''Catch'') (JArr []));
     ts \<leftarrow> rule_targets catches;
     branches \<leftarrow> py_iter (get state_def (lit ''Branches'') (JArr []));
     Some (ns2 @ ts)
   }"

text \<open>
  The \<^verbatim>\<open>while queue\<close> loop over a dict \<open>states\<close>. \<open>reachable\<close> only ever holds
  keys of \<open>states\<close>, so a hashable value that is no string is in neither and is
  skipped; a list or a dict in the queue raises in the set membership test.
\<close>

function bfs :: "(pystr \<times> json) list \<Rightarrow> json list \<Rightarrow> pystr set \<Rightarrow> pystr set option" where
  "bfs states [] reachable = Some reachable"
| "bfs states (current # queue) reachable =
     (case current of
        JArr xs \<Rightarrow> None
      | JObj kvs \<Rightarrow> None
      | JStr c \<Rightarrow>
          if c \<in> reachable \<or> \<not> has_key states c then bfs states queue reachable
          else (case get states c JNull of
                  JObj state_def \<Rightarrow>
                    (case collect_next_states state_def of
                       None \<Rightarrow> None
                     | Some next_states \<Rightarrow>
                         bfs states (queue @ next_states) (insert c reachable))
                | _ \<Rightarrow> bfs states queue (insert c reachable))
      | _ \<Rightarrow> bfs states queue reachable)"
  by pat_completeness auto
termination
proof -
  have shrink: "0 < card (fst ` set states - reachable)"
    if "(c, b) \<in> set states" "c \<notin> reachable"
    for states :: "(pystr \<times> json) list" and c b reachable
  proof -
    have "c \<in> fst ` set states - reachable"
      using that by force
    moreover have "finite (fst ` set states - reachable)"
      by simp
    ultimately show ?thesis
      by (metis card_gt_0_iff empty_iff)
  qed
  show ?thesis
    by (relation "measures [\<lambda>(states, queue, reachable). card (set (map fst states) - reachable),
                            \<lambda>(states, queue, reachable). length queue]")
       (auto simp: has_key_def dest: shrink)
qed

declare bfs.simps [simp del]

definition unreachable_message :: "pystr \<Rightarrow> pystr" where
  "unreachable_message state = lit ''State '' @ quoted state @ lit '' is unreachable from StartAt''"

text \<open>
  \<^verbatim>\<open>_detect_unreachable_states\<close>. Two remarks on the model.

  A truthy \<^verbatim>\<open>States\<close> that is not a dict always ends in an exception: a number
  fails the first \<^verbatim>\<open>current not in states\<close>; a string fails that test, or the
  subscript \<^verbatim>\<open>states[current]\<close>, or, the queue exhausted, \<^verbatim>\<open>states.keys()\<close>; a list
  runs the loop (finitely often: each round that adds to the queue adds a new element
  of the list to \<^verbatim>\<open>reachable\<close>) and then fails \<^verbatim>\<open>states.keys()\<close>.

  \<^verbatim>\<open>unreachable\<close> is a Python set, iterated in hash order; the model lists it in
  the order of the keys of \<^verbatim>\<open>States\<close>.
\<close>

definition detect_unreachable_states :: "validator \<Rightarrow> validator option" where
  "detect_unreachable_states v = do {
     states \<leftarrow> dict_get (asl_definition v) (lit ''States'') (JObj []);
     start_at \<leftarrow> dict_get (asl_definition v) (lit ''StartAt'') JNull;
     if \<not> truthy states \<or> \<not> truthy start_at then Some v
     else case states of
       JObj kvs \<Rightarrow> do {
         reachable \<leftarrow> bfs kvs [start_at] {};
         let unreachable = filter (\<lambda>k. k \<notin> reachable) (map fst kvs);
         Some (fold (\<lambda>state w. add_warning (unreachable_message state) w) unreachable v)
       }
     | _ \<Rightarrow> None
   }"

subsection \<open>Pattern checks\<close>

text \<open>
  The loop body of \<^verbatim>\<open>_check_cross_account_patterns\<close>; the state of the loop is
  \<^verbatim>\<open>credentials_count\<close> and the validator.
\<close>

definition check_credentials ::
  "pystr \<times> json \<Rightarrow> nat \<times> validator \<Rightarrow> (nat \<times> validator) option" where
  "check_credentials item cv =
     (case item of (state_name, JObj state_def) \<Rightarrow>
        if has_key state_def (lit ''Credentials'') then do {
          let creds = get state_def (lit ''Credentials'') JNull;
          has_role \<leftarrow> py_in (JStr (lit ''RoleArn'')) creds;
          has_role_path \<leftarrow> (if \<not> has_role then py_in (JStr (lit ''RoleArn.$'')) creds
                            else Some True);
          Some (fst cv + 1,
                if \<not> has_role \<and> \<not> has_role_path
                then add_warning (lit ''State '' @ quoted state_name @
                       lit '' has Credentials but no RoleArn'') (snd cv)
                else snd cv)
        } else Some cv
      | (state_name, _) \<Rightarrow> Some cv)"

definition check_cross_account_patterns :: "validator \<Rightarrow> validator option" where
  "check_cross_account_patterns v = do {
     states \<leftarrow> dict_get (asl_definition v) (lit ''States'') (JObj []);
     items \<leftarrow> py_items states;
     cv \<leftarrow> fold_opt check_credentials items (0, v);
     Some (if fst cv > 0
           then add_info (lit ''Cross-account pattern detected: '' @ dec_nat (fst cv) @
                  lit '' states with Credentials'') (snd cv)
           else snd cv)
   }"

text \<open>
  \<^verbatim>\<open>json.dumps\<close> with its defaults: separators \<^verbatim>\<open>", "\<close> and \<^verbatim>\<open>": "\<close>, and
  \<^verbatim>\<open>ensure_ascii\<close>, which escapes the quote, the backslash and every code point
  outside \<^verbatim>\<open>' '..'~'\<close>, those beyond the basic plane as a surrogate pair.
\<close>

definition hex_digit :: "nat \<Rightarrow> nat" where
  "hex_digit d = (if d < 10 then 48 + d else 87 + d)"

definition hex4 :: "nat \<Rightarrow> pystr" where
  "hex4 n = [hex_digit (n div 4096 mod 16), hex_digit (n div 256 mod 16),
             hex_digit (n div 16 mod 16), hex_digit (n mod 16)]"

definition escape_char :: "nat \<Rightarrow> pystr" where
  "escape_char c =
     (if c = 34 then [92, 34]
      else if c = 92 then [92, 92]
      else if c = 10 then [92, 110]
      else if c = 13 then [92, 114]
      else if c = 9 then [92, 116]
      else if c = 8 then [92, 98]
      else if c = 12 then [92, 102]
      else if 32 \<le> c \<and> c \<le> 126 then [c]
      else if c < 65536 then [92, 117] @ hex4 c
      else [92, 117] @ hex4 (55296 + (c - 65536) div 1024) @
           [92, 117] @ hex4 (56320 + (c - 65536) mod 1024))"

definition dumps_str :: "pystr \<Rightarrow> pystr" where
  "dumps_str s = 34 # concat (map escape_char s) @ [34]"

fun json_dumps :: "json \<Rightarrow> pystr" where
  "json_dumps JNull = lit ''null''"
| "json_dumps (JBool b) = (if b then lit ''true'' else lit ''false'')"
| "json_dumps (JInt i) = dec_int i"
| "json_dumps (JStr s) = dumps_str s"
| "json_dumps (JArr xs) = lit ''['' @ join (lit '', '') (map json_dumps xs) @ lit '']''"
| "json_dumps (JObj kvs) =
     lit ''{'' @ join (lit '', '') (map (\<lambda>kv. dumps_str (fst kv) @ lit '': '' @
                                          json_dumps (snd kv)) kvs) @ lit ''}''"

text \<open>
  \<^verbatim>\<open>re.findall(r'arn:aws:[a-z0-9-]+:[a-z0-9-]*:(\d{12}):', content)\<close>. The colon
  is outside the class \<^verbatim>\<open>[a-z0-9-]\<close>, so each greedy run must be the whole maximal
  run and the match at a position is unique. \<open>content\<close> is ASCII, where \<^verbatim>\<open>\d\<close> is
  \<^verbatim>\<open>[0-9]\<close>. \<open>match_here\<close> gives the group and the text after the match.
\<close>

definition is_cls :: "nat \<Rightarrow> bool" where
  "is_cls c = ((97 \<le> c \<and> c \<le> 122) \<or> (48 \<le> c \<and> c \<le> 57) \<or> c = 45)"

definition is_digit :: "nat \<Rightarrow> bool" where
  "is_digit c = (48 \<le> c \<and> c \<le> 57)"

definition match_here :: "pystr \<Rightarrow> (pystr \<times> pystr) option" where
  "match_here s =
     (if take 8 s \<noteq> lit ''arn:aws:'' then None
      else if takeWhile is_cls (drop 8 s) = [] then None
      else case dropWhile is_cls (drop 8 s) of
        [] \<Rightarrow> None
      | c1 # s1 \<Rightarrow>
          if c1 \<noteq> 58 then None
          else case dropWhile is_cls s1 of
            [] \<Rightarrow> None
          | c2 # s2 \<Rightarrow>
              if c2 \<noteq> 58 then None
              else if length (take 12 s2) = 12 \<and> list_all is_digit (take 12 s2) \<and>
                      take 1 (drop 12 s2) = [58]
              then Some (take 12 s2, drop 13 s2)
              else None)"

function findall :: "pystr \<Rightarrow> pystr list" where
  "findall s =
     (case match_here s of
        Some (g, rest) \<Rightarrow> if length rest < length s then g # findall rest else [g]
      | None \<Rightarrow> (case s of [] \<Rightarrow> [] | c # cs \<Rightarrow> findall cs))"
  by pat_completeness auto
termination
  by (relation "measure length") auto

declare findall.simps [simp del]

definition hardcoded_message :: "pystr list \<Rightarrow> pystr" where
  "hardcoded_message unique_accounts =
     lit ''Hardcoded AWS account ID(s) found: '' @ join (lit '', '') unique_accounts @
     lit '' - consider using parameters''"

text \<open>
  \<^verbatim>\<open>_check_hardcoded_arns\<close>. \<^verbatim>\<open>set(matches)\<close> is iterated in hash order; the
  model lists it with \<open>remdups\<close>.
\<close>

definition check_hardcoded_arns :: "validator \<Rightarrow> validator" where
  "check_hardcoded_arns v =
     (let content = json_dumps (asl_definition v);
          matches = findall content
      in if matches \<noteq> []
         then (let unique_accounts = remdups matches
               in add_warning (hardcoded_message unique_accounts) v)
         else v)"

subsection \<open>\<^verbatim>\<open>validate\<close>, the driver's verdict and \<^verbatim>\<open>report\<close>\<close>

definition validate ::
  "(json \<Rightarrow> pystr) \<Rightarrow> load_outcome \<Rightarrow> validator \<Rightarrow> (bool \<times> validator) option" where
  "validate crepr file v0 =
     (case load file v0 of
        (False, v) \<Rightarrow> Some (False, v)
      | (True, v) \<Rightarrow> do {
          v1 \<leftarrow> validate_required_fields v;
          v2 \<leftarrow> validate_start_at crepr v1;
          v3 \<leftarrow> validate_states v2;
          v4 \<leftarrow> validate_state_references v3;
          v5 \<leftarrow> validate_terminal_states v4;
          v6 \<leftarrow> detect_unreachable_states v5;
          v7 \<leftarrow> check_cross_account_patterns v6;
          let v8 = check_hardcoded_arns v7;
          Some (length (errors v8) = 0, v8)
        })"

text \<open>
  The body of the loop of \<^verbatim>\<open>main\<close> up to the verdict \<^verbatim>\<open>is_valid\<close> on one file:
  a fresh validator, \<^verbatim>\<open>validate\<close>, and the \<^verbatim>\<open>--strict\<close> adjustment.
\<close>

definition file_verdict ::
  "(json \<Rightarrow> pystr) \<Rightarrow> bool \<Rightarrow> pystr \<Rightarrow> load_outcome \<Rightarrow> (bool \<times> validator) option" where
  "file_verdict crepr strict path file = do {
     r \<leftarrow> validate crepr file (init path);
     let is_valid = fst r;
     let validator = snd r;
     Some (if strict then is_valid \<and> length (warnings validator) = 0 else is_valid,
           validator)
   }"

definition report_lines :: "validator \<Rightarrow> bool \<Rightarrow> pystr list" where
  "report_lines v verbose =
     (let lines0 = [lit ''File: '' @ file_path v];
          lines1 = (if errors v \<noteq> []
                    then lines0 @
                         [lit ''  ERRORS ('' @ dec_nat (length (errors v)) @ lit ''):''] @
                         map (\<lambda>error. lit ''    '' @ [10007] @ lit '' '' @ error) (errors v)
                    else lines0);
          lines2 = (if warnings v \<noteq> [] \<and> verbose
                    then lines1 @
                         [lit ''  WARNINGS ('' @ dec_nat (length (warnings v)) @ lit ''):''] @
                         map (\<lambda>warning. lit ''    '' @ [9888] @ lit '' '' @ warning) (warnings v)
                    else lines1);
          lines3 = (if info v \<noteq> [] \<and> verbose
                    then lines2 @
                         [lit ''  INFO ('' @ dec_nat (length (info v)) @ lit ''):''] @
                         map (\<lambda>i. lit ''    '' @ [8505] @ lit '' '' @ i) (info v)
                    else lines2)
      in if errors v = [] then lines3 @ [lit ''  '' @ [10003] @ lit '' Valid''] else lines3)"

definition report :: "validator \<Rightarrow> bool \<Rightarrow> pystr" where
  "report v verbose = join [10] (report_lines v verbose)"

section \<open>Example documents\<close>

text \<open>The renderer of lists and dicts used where an example needs one.\<close>

definition no_repr :: "json \<Rightarrow> pystr" where
  "no_repr x = []"

text \<open>
  \<^verbatim>\<open>{"StartAt": "A", "States": {"A": {"Type": "Task", "Resource":
  "arn:aws:states:::lambda:invoke", "End": true}}}\<close>: no error, one warning.
\<close>

definition task_doc :: json where
  "task_doc = JObj [(lit ''StartAt'', JStr (lit ''A'')),
     (lit ''States'', JObj [(lit ''A'', JObj [(lit ''Type'', JStr (lit ''Task'')),
        (lit ''Resource'', JStr (lit ''arn:aws:states:::lambda:invoke'')),
        (lit ''End'', JBool True)])])]"

definition task_doc_result :: validator where
  "task_doc_result = (init (lit ''f''))\<lparr>
     warnings := [lit ''Task state '' @ quoted (lit ''A'') @
                  lit '' has no error handling (Catch/Retry)''],
     asl_definition := task_doc\<rparr>"

text \<open>A validator whose load failed, and the closing line of a report without errors.\<close>

definition failed_validator :: validator where
  "failed_validator = (init (lit ''f''))\<lparr>errors := [lit ''boom'']\<rparr>"

definition valid_marker :: pystr where
  "valid_marker = lit ''  '' @ [10003] @ lit '' Valid''"

text \<open>
  The layout of a report in blocks: the header; the errors, if any; with the verbose
  flag the warnings, if any, and the info, if any; the closing line when there is no
  error.
\<close>

definition report_layout :: "validator \<Rightarrow> bool \<Rightarrow> pystr list" where
  "report_layout v verbose =
     [lit ''File: '' @ file_path v] @
     (if errors v \<noteq> []
      then (lit ''  ERRORS ('' @ dec_nat (length (errors v)) @ lit ''):'') #
           map (\<lambda>e. lit ''    '' @ [10007] @ lit '' '' @ e) (errors v)
      else []) @
     (if verbose \<and> warnings v \<noteq> []
      then (lit ''  WARNINGS ('' @ dec_nat (length (warnings v)) @ lit ''):'') #
           map (\<lambda>w. lit ''    '' @ [9888] @ lit '' '' @ w) (warnings v)
      else []) @
     (if verbose \<and> info v \<noteq> []
      then (lit ''  INFO ('' @ dec_nat (length (info v)) @ lit ''):'') #
           map (\<lambda>i. lit ''    '' @ [8505] @ lit '' '' @ i) (info v)
      else []) @
     (if errors v = [] then [valid_marker] else [])"


section \<open>The graph of transitions\<close>

text \<open>
  What one round of the work-list loop appends to the queue for the state named
  \<open>c\<close>: the \<^verbatim>\<open>next_states\<close> of a dict-valued state, nothing for any other value.
\<close>

definition succs :: "(pystr \<times> json) list \<Rightarrow> pystr \<Rightarrow> json list option" where
  "succs states c =
     (case get states c JNull of JObj state_def \<Rightarrow> collect_next_states state_def | _ \<Rightarrow> Some [])"

text \<open>
  The transitions of a state as the specification lists them: its \<^verbatim>\<open>Next\<close>;
  for a \<^verbatim>\<open>Choice\<close> state the \<^verbatim>\<open>Next\<close> of each rule of \<^verbatim>\<open>Choices\<close> and the
  \<^verbatim>\<open>Default\<close>; the \<^verbatim>\<open>Next\<close> of each rule of \<^verbatim>\<open>Catch\<close>. These are
  definitions of the specification, written without the code's loops.
\<close>

definition rule_list :: "json \<Rightarrow> json list" where
  "rule_list x = (case x of JArr rules \<Rightarrow> rules | _ \<Rightarrow> [])"

definition rule_next :: "json \<Rightarrow> json list" where
  "rule_next rule =
     (case rule of
        JObj d \<Rightarrow> if has_key d (lit ''Next'') then [get d (lit ''Next'') JNull] else []
      | _ \<Rightarrow> [])"

definition transition_targets :: "(pystr \<times> json) list \<Rightarrow> json list" where
  "transition_targets state_def =
     (if has_key state_def (lit ''Next'') then [get state_def (lit ''Next'') JNull] else []) @
     (if get state_def (lit ''Type'') JNull = JStr (lit ''Choice'')
      then concat (map rule_next (rule_list (get state_def (lit ''Choices'') (JArr [])))) @
           (if has_key state_def (lit ''Default'')
            then [get state_def (lit ''Default'') JNull] else [])
      else []) @
     concat (map rule_next (rule_list (get state_def (lit ''Catch'') (JArr []))))"

definition state_targets :: "(pystr \<times> json) list \<Rightarrow> pystr \<Rightarrow> json list" where
  "state_targets states c =
     (case get states c JNull of JObj state_def \<Rightarrow> transition_targets state_def | _ \<Rightarrow> [])"

text \<open>
  The directed graph on the keys of \<^verbatim>\<open>States\<close>, and the keys reachable in it from
  the value of \<^verbatim>\<open>StartAt\<close>, by the reflexive transitive closure of the edges.
\<close>

definition edge :: "(pystr \<times> json) list \<Rightarrow> (pystr \<Rightarrow> json list) \<Rightarrow> (pystr \<times> pystr) set" where
  "edge states nexts =
     {(a, b). has_key states a \<and> has_key states b \<and> JStr b \<in> set (nexts a)}"

definition reachable_from ::
  "(pystr \<times> json) list \<Rightarrow> (pystr \<Rightarrow> json list) \<Rightarrow> json \<Rightarrow> pystr set" where
  "reachable_from states nexts start =
     {c. \<exists>s. start = JStr s \<and> has_key states s \<and> (s, c) \<in> (edge states nexts)\<^sup>*}"

text \<open>
  Well-formed transition fields: \<^verbatim>\<open>Choices\<close> (of a \<^verbatim>\<open>Choice\<close> state) and
  \<^verbatim>\<open>Catch\<close> are lists of objects, \<^verbatim>\<open>Branches\<close> is a list, and no transition
  target is a list or an object. On other values the traversal can raise.
\<close>

definition rules_typed :: "json \<Rightarrow> bool" where
  "rules_typed x = (case x of JArr rules \<Rightarrow> list_all is_dict rules | _ \<Rightarrow> False)"

definition transitions_typed :: "(pystr \<times> json) list \<Rightarrow> bool" where
  "transitions_typed state_def =
     ((if get state_def (lit ''Type'') JNull = JStr (lit ''Choice'')
       then rules_typed (get state_def (lit ''Choices'') (JArr [])) else True) \<and>
      rules_typed (get state_def (lit ''Catch'') (JArr [])) \<and>
      is_list (get state_def (lit ''Branches'') (JArr [])) \<and>
      list_all hashable (transition_targets state_def))"

definition states_typed :: "(pystr \<times> json) list \<Rightarrow> bool" where
  "states_typed states =
     list_all (\<lambda>kv. case snd kv of JObj state_def \<Rightarrow> transitions_typed state_def | _ \<Rightarrow> True)
       states"

subsection \<open>Documents for the reachability stage\<close>

text \<open>The validator of a file \<^verbatim>\<open>f\<close> after a successful \<^verbatim>\<open>load\<close>, and the
  fields of a document whose root is an object.\<close>

definition loaded :: "json \<Rightarrow> validator" where
  "loaded doc = snd (load (Parsed doc) (init (lit ''f'')))"

definition doc_fields :: "json \<Rightarrow> (pystr \<times> json) list" where
  "doc_fields doc = (case doc of JObj d \<Rightarrow> d | _ \<Rightarrow> [])"

text \<open>
  \<^verbatim>\<open>{"StartAt": "A", "States": {"A": {"Type": "Pass", "Next": "B", "End": false},
  "B": {"Type": "Succeed"}, "C": {"Type": "Succeed"}}}\<close>
\<close>

definition three_states :: "(pystr \<times> json) list" where
  "three_states =
     [(lit ''A'', JObj [(lit ''Type'', JStr (lit ''Pass'')), (lit ''Next'', JStr (lit ''B'')),
                        (lit ''End'', JBool False)]),
      (lit ''B'', JObj [(lit ''Type'', JStr (lit ''Succeed''))]),
      (lit ''C'', JObj [(lit ''Type'', JStr (lit ''Succeed''))])]"

definition three_state_doc :: json where
  "three_state_doc = JObj [(lit ''StartAt'', JStr (lit ''A'')), (lit ''States'', JObj three_states)]"

text \<open>
  \<^verbatim>\<open>StartAt\<close> is the empty string: once with a state of that name beside a state
  \<^verbatim>\<open>B\<close>, once with the single state \<^verbatim>\<open>A\<close>.
\<close>

definition empty_start_states :: "(pystr \<times> json) list" where
  "empty_start_states =
     [([], JObj [(lit ''Type'', JStr (lit ''Succeed''))]),
      (lit ''B'', JObj [(lit ''Type'', JStr (lit ''Succeed''))])]"

definition empty_start_doc :: json where
  "empty_start_doc = JObj [(lit ''StartAt'', JStr []), (lit ''States'', JObj empty_start_states)]"




subsection \<open>Documents that parse and are not well-typed\<close>

text \<open>
  \<^verbatim>\<open>{"StartAt": "A", "States": ["A"]}\<close>, and documents with the single state
  \<^verbatim>\<open>A\<close>: a Choice state whose \<^verbatim>\<open>Choices\<close> is \<^verbatim>\<open>[1]\<close>, a Task state whose
  \<^verbatim>\<open>Catch\<close> is \<^verbatim>\<open>[1]\<close>, and a Task state whose \<^verbatim>\<open>Credentials\<close> is \<^verbatim>\<open>1\<close>.
\<close>

definition states_list_doc :: json where
  "states_list_doc = JObj [(lit ''StartAt'', JStr (lit ''A'')), (lit ''States'', JArr [JStr (lit ''A'')])]"

definition one_state_doc :: "(pystr \<times> json) list \<Rightarrow> json" where
  "one_state_doc state_def =
     JObj [(lit ''StartAt'', JStr (lit ''A'')), (lit ''States'', JObj [(lit ''A'', JObj state_def)])]"

definition scalar_choice_doc :: json where
  "scalar_choice_doc = one_state_doc [(lit ''Type'', JStr (lit ''Choice'')),
     (lit ''Choices'', JArr [JInt 1]), (lit ''Default'', JStr (lit ''A''))]"

definition scalar_catch_doc :: json where
  "scalar_catch_doc = one_state_doc [(lit ''Type'', JStr (lit ''Task'')),
     (lit ''Resource'', JStr (lit ''r'')), (lit ''End'', JBool True), (lit ''Catch'', JArr [JInt 1])]"

definition scalar_credentials_doc :: json where
  "scalar_credentials_doc = one_state_doc [(lit ''Type'', JStr (lit ''Task'')),
     (lit ''Resource'', JStr (lit ''r'')), (lit ''End'', JBool True), (lit ''Retry'', JArr []),
     (lit ''Credentials'', JInt 1)]"

subsection \<open>Terminal states, as the specification words them\<close>

text \<open>
  A state is terminal when it is an object whose \<^verbatim>\<open>Type\<close> is \<^verbatim>\<open>Succeed\<close> or
  \<^verbatim>\<open>Fail\<close> or whose \<^verbatim>\<open>End\<close> is truthy; for a boolean \<^verbatim>\<open>End\<close> that is
  \<^verbatim>\<open>End == true\<close>. The test of the \<^verbatim>\<open>Type\<close> is a set membership, which raises on a
  list or an object.
\<close>

definition is_terminal :: "json \<Rightarrow> bool" where
  "is_terminal state =
     (case state of
        JObj state_def \<Rightarrow>
          get state_def (lit ''Type'') (JStr []) \<in> {JStr (lit ''Succeed''), JStr (lit ''Fail'')} \<or>
          truthy (get state_def (lit ''End'') (JBool False))
      | _ \<Rightarrow> False)"

definition type_hashable :: "json \<Rightarrow> bool" where
  "type_hashable state =
     (case state of JObj state_def \<Rightarrow> hashable (get state_def (lit ''Type'') (JStr []))
      | _ \<Rightarrow> True)"

text \<open>
  A document whose only terminal state, \<^verbatim>\<open>C\<close>, is unreachable; one without a terminal
  state; and one whose single state has the \<^verbatim>\<open>End\<close> \<^verbatim>\<open>"yes"\<close>.
\<close>

definition unreachable_terminal_doc :: json where
  "unreachable_terminal_doc = JObj [(lit ''StartAt'', JStr (lit ''A'')),
     (lit ''States'', JObj [
        (lit ''A'', JObj [(lit ''Type'', JStr (lit ''Pass'')), (lit ''Next'', JStr (lit ''A''))]),
        (lit ''C'', JObj [(lit ''Type'', JStr (lit ''Succeed''))])])]"

definition loop_doc :: json where
  "loop_doc = one_state_doc [(lit ''Type'', JStr (lit ''Pass'')), (lit ''Next'', JStr (lit ''A''))]"

definition truthy_end_doc :: json where
  "truthy_end_doc = one_state_doc [(lit ''Type'', JStr (lit ''Pass'')), (lit ''End'', JStr (lit ''yes''))]"

section \<open>The verdict\<close>

lemma validate_Parsed:
  "validate crepr (Parsed d) v0 = Some (b, v) \<Longrightarrow> b = (errors v = [])"
  by (auto simp: validate_def Let_def split: bind_splits)

lemma validate_not_Parsed:
  "validate crepr (JSONDecodeError e) v0 =
     Some (False, v0\<lparr>errors := errors v0 @ [lit ''Invalid JSON syntax: '' @ e]\<rparr>)"
  "validate crepr FileNotFoundError v0 =
     Some (False, v0\<lparr>errors := errors v0 @ [lit ''File not found: '' @ file_path v0]\<rparr>)"
  "validate crepr (OtherException e) v0 =
     Some (False, v0\<lparr>errors := errors v0 @ [lit ''Error reading file: '' @ e]\<rparr>)"
  by (simp_all add: validate_def add_error_def)

lemma validate_verdict:
  assumes "validate crepr f v0 = Some (b, v)"
  shows "b = (errors v = [])"
proof (cases f)
  case (Parsed d)
  then show ?thesis using validate_Parsed assms by blast
qed (use assms in \<open>auto simp: validate_not_Parsed\<close>)

lemma file_verdict_Some:
  assumes "file_verdict crepr strict path f = Some (ok, w)"
  shows "\<exists>b. validate crepr f (init path) = Some (b, w) \<and>
             ok = (if strict then b \<and> length (warnings w) = 0 else b)"
proof (cases "validate crepr f (init path)")
  case None
  with assms show ?thesis by (simp add: file_verdict_def)
next
  case (Some r)
  with assms show ?thesis by (cases r) (auto simp: file_verdict_def Let_def)
qed

text \<open>
  C1. Whenever \<^verbatim>\<open>validate\<close> returns, it returns true exactly when the errors list
  is empty (after all stages when the file parsed, after the failed load otherwise);
  and under \<^verbatim>\<open>--strict\<close> the driver's \<^verbatim>\<open>is_valid\<close> for the file is true exactly
  when both the errors list and the warnings list of its validator are empty.
\<close>

theorem validate_true_iff_no_errors:
  "(validate crepr f v0 = Some (b, v) \<longrightarrow> (b \<longleftrightarrow> length (errors v) = 0)) \<and>
   (file_verdict crepr True path f = Some (ok, w) \<longrightarrow>
      (ok \<longleftrightarrow> length (errors w) = 0 \<and> length (warnings w) = 0)) \<and>
   (file_verdict crepr False path f = Some (ok', w') \<longrightarrow>
      (ok' \<longleftrightarrow> length (errors w') = 0))"
proof (intro conjI impI)
  assume "validate crepr f v0 = Some (b, v)"
  from validate_verdict [OF this] show "b \<longleftrightarrow> length (errors v) = 0"
    by simp
next
  assume "file_verdict crepr True path f = Some (ok, w)"
  from file_verdict_Some [OF this] obtain b
    where 1: "validate crepr f (init path) = Some (b, w)"
      and 2: "ok = (b \<and> length (warnings w) = 0)"
    by auto
  from validate_verdict [OF 1] 2
  show "ok \<longleftrightarrow> length (errors w) = 0 \<and> length (warnings w) = 0"
    by simp
next
  assume "file_verdict crepr False path f = Some (ok', w')"
  from file_verdict_Some [OF this]
  have 1: "validate crepr f (init path) = Some (ok', w')"
    by auto
  from validate_verdict [OF 1] show "ok' \<longleftrightarrow> length (errors w') = 0"
    by simp
qed


theorem validate_true_iff_no_errors_witness:
  "validate no_repr (Parsed task_doc) (init (lit ''f'')) = Some (True, task_doc_result) \<and>
   file_verdict no_repr True (lit ''f'') (Parsed task_doc) = Some (False, task_doc_result) \<and>
   file_verdict no_repr False (lit ''f'') (Parsed task_doc) = Some (True, task_doc_result) \<and>
   length (errors task_doc_result) = 0 \<and> length (warnings task_doc_result) \<noteq> 0"
proof -
  have 1: "validate no_repr (Parsed task_doc) (init (lit ''f'')) = Some (True, task_doc_result)"
    by code_simp
  have 4: "length (warnings task_doc_result) \<noteq> 0"
    by (simp add: task_doc_result_def)
  have 2: "file_verdict no_repr True (lit ''f'') (Parsed task_doc) = Some (False, task_doc_result)"
    using 1 4 by (simp add: file_verdict_def)
  have 3: "file_verdict no_repr False (lit ''f'') (Parsed task_doc) = Some (True, task_doc_result)"
    using 1 by (simp add: file_verdict_def)
  from validate_true_iff_no_errors [of no_repr "Parsed task_doc" "init (lit ''f'')" True
      task_doc_result "lit ''f''" False task_doc_result True task_doc_result] 1 2 3 4
  show ?thesis by simp
qed

text \<open>
  C6. If \<^verbatim>\<open>load\<close> fails (the text does not parse, the file is missing, or reading
  raises), \<^verbatim>\<open>validate\<close> on the fresh validator of a file returns false at once: the
  validator is the initial one with exactly one error, the failure of the load, its
  warnings and info lists are empty, and the driver counts the file as invalid, strict
  or not.
\<close>

theorem parse_failure_is_fatal:
  "validate crepr (JSONDecodeError e) (init path) =
     Some (False, (init path)\<lparr>errors := [lit ''Invalid JSON syntax: '' @ e]\<rparr>) \<and>
   validate crepr FileNotFoundError (init path) =
     Some (False, (init path)\<lparr>errors := [lit ''File not found: '' @ path]\<rparr>) \<and>
   validate crepr (OtherException e) (init path) =
     Some (False, (init path)\<lparr>errors := [lit ''Error reading file: '' @ e]\<rparr>) \<and>
   warnings (init path) = [] \<and> info (init path) = [] \<and>
   file_verdict crepr strict path (JSONDecodeError e) =
     Some (False, (init path)\<lparr>errors := [lit ''Invalid JSON syntax: '' @ e]\<rparr>)"
  by (simp add: validate_not_Parsed file_verdict_def init_def Let_def)

section \<open>The report\<close>

text \<open>
  C10, as the code has it. For every validator and verbose flag, \<^verbatim>\<open>report\<close> joins
  with newlines: the file path header; an ERRORS block (count, then one line per
  error) exactly when there are errors; a WARNINGS block and an INFO block only when
  the verbose flag is set and the list is non-empty; and the closing
  \<^verbatim>\<open>Valid\<close> line exactly when there are no errors. A report with errors has no
  closing marker line.
\<close>

theorem report_blocks:
  "report_lines v verbose = report_layout v verbose \<and>
   report v verbose = join [10] (report_layout v verbose) \<and>
   hd (report_lines v verbose) = lit ''File: '' @ file_path v \<and>
   (errors v = [] \<longrightarrow> last (report_lines v verbose) = valid_marker)"
  by (simp add: report_lines_def report_layout_def report_def valid_marker_def Let_def)

theorem report_blocks_witness:
  "errors task_doc_result = [] \<and>
   last (report_lines task_doc_result True) = valid_marker"
proof -
  have e: "errors task_doc_result = []"
    by (simp add: task_doc_result_def init_def)
  from report_blocks [of task_doc_result True] e show ?thesis
    by blast
qed

text \<open>
  C10 as stated asks for a closing valid/invalid marker on every report. With one error
  the report ends with the line of that error.
\<close>

theorem report_closing_marker_counterexample:
  "report_lines failed_validator False =
     [lit ''File: f'', lit ''  ERRORS (1):'', lit ''    '' @ [10007] @ lit '' boom''] \<and>
   last (report_lines failed_validator False) = lit ''    '' @ [10007] @ lit '' boom'' \<and>
   valid_marker \<notin> set (report_lines failed_validator False)"
  by code_simp

section \<open>Hardcoded account identifiers\<close>




section \<open>Unreachable states\<close>

subsection \<open>The work-list loop\<close>

lemma bfs_Nil: "bfs states [] R = Some R"
  by (simp add: bfs.simps)

lemma bfs_unhashable: "\<not> hashable cur \<Longrightarrow> bfs states (cur # q) R = None"
  by (cases cur) (simp_all add: bfs.simps)

lemma bfs_skip:
  "hashable cur \<Longrightarrow> (\<And>c. cur = JStr c \<Longrightarrow> c \<in> R \<or> \<not> has_key states c) \<Longrightarrow>
   bfs states (cur # q) R = bfs states q R"
  by (cases cur) (auto simp: bfs.simps)

lemma bfs_visit:
  "c \<notin> R \<Longrightarrow> has_key states c \<Longrightarrow>
   bfs states (JStr c # q) R =
     (case succs states c of None \<Rightarrow> None | Some ns \<Rightarrow> bfs states (q @ ns) (insert c R))"
  by (cases "get states c JNull") (simp_all add: bfs.simps succs_def)

lemma bfs_cases_induct [case_names Nil Unhashable Skip Visit]:
  assumes nil: "\<And>R. P [] R"
    and unh: "\<And>cur q R. \<not> hashable cur \<Longrightarrow> P (cur # q) R"
    and skip: "\<And>cur q R. hashable cur \<Longrightarrow>
                 (\<And>c. cur = JStr c \<Longrightarrow> c \<in> R \<or> \<not> has_key states c) \<Longrightarrow>
                 P q R \<Longrightarrow> P (cur # q) R"
    and visit: "\<And>c q R. c \<notin> R \<Longrightarrow> has_key states c \<Longrightarrow>
                 (\<And>ns. succs states c = Some ns \<Longrightarrow> P (q @ ns) (insert c R)) \<Longrightarrow>
                 P (JStr c # q) R"
  shows "P q R"
proof -
  have "s = states \<Longrightarrow> P q R" for s
  proof (induction s q R rule: bfs.induct)
    case (1 s R)
    show ?case by (rule nil)
  next
    case (2 s current queue R)
    note s = \<open>s = states\<close>
    show ?case
    proof (cases "hashable current")
      case False
      then show ?thesis by (rule unh)
    next
      case True
      show ?thesis
      proof (cases "\<exists>c. current = JStr c \<and> c \<notin> R \<and> has_key states c")
        case False
        have "P queue R"
          using True False 2 by (cases current) auto
        with True False show ?thesis
          by (intro skip) auto
      next
        case v: True
        then obtain c where c: "current = JStr c" "c \<notin> R" "has_key states c"
          by blast
        have "P (queue @ ns) (insert c R)" if "succs states c = Some ns" for ns
          using that c 2 by (cases "get states c JNull") (auto simp: succs_def)
        with c show ?thesis
          by (auto intro: visit)
      qed
    qed
  qed
  then show ?thesis by simp
qed

lemma bfs_total:
  assumes succs: "\<And>c. has_key states c \<Longrightarrow> succs states c = Some (nexts c)"
    and hash: "\<And>c. has_key states c \<Longrightarrow> list_all hashable (nexts c)"
  shows "list_all hashable q \<Longrightarrow> \<exists>r. bfs states q R = Some r"
proof (induction q R rule: bfs_cases_induct [where states = states])
  case (Nil R)
  show ?case by (simp add: bfs_Nil)
next
  case (Unhashable cur q R)
  then show ?case by simp
next
  case (Skip cur q R)
  then show ?case by (simp add: bfs_skip)
next
  case (Visit c q R)
  have "list_all hashable (q @ nexts c)"
    using Visit.prems hash [OF Visit.hyps(2)] by simp
  with Visit.IH [OF succs [OF Visit.hyps(2)]] show ?case
    by (simp add: bfs_visit Visit.hyps succs [OF Visit.hyps(2)])
qed

lemma bfs_sound:
  assumes succs: "\<And>c. has_key states c \<Longrightarrow> succs states c = Some (nexts c)"
    and closed: "\<And>a b. a \<in> S \<Longrightarrow> (a, b) \<in> edge states nexts \<Longrightarrow> b \<in> S"
  shows "bfs states q R = Some r \<Longrightarrow> R \<subseteq> S \<Longrightarrow>
         (\<And>a. JStr a \<in> set q \<Longrightarrow> has_key states a \<Longrightarrow> a \<in> S) \<Longrightarrow> r \<subseteq> S"
proof (induction q R rule: bfs_cases_induct [where states = states])
  case (Nil R)
  then show ?case by (simp add: bfs_Nil)
next
  case (Unhashable cur q R)
  then show ?case by (simp add: bfs_unhashable)
next
  case (Skip cur q R)
  from Skip.prems(1) have "bfs states q R = Some r"
    using Skip.hyps by (simp add: bfs_skip)
  then show ?case
    using Skip.IH Skip.prems by simp
next
  case (Visit c q R)
  have run: "bfs states (q @ nexts c) (insert c R) = Some r"
    using Visit.prems(1) Visit.hyps by (simp add: bfs_visit succs)
  have c: "c \<in> S"
    using Visit.prems(3) Visit.hyps(2) by simp
  show ?case
  proof (rule Visit.IH [OF succs [OF Visit.hyps(2)] run])
    show "insert c R \<subseteq> S" using c Visit.prems(2) by simp
    show "a \<in> S" if "JStr a \<in> set (q @ nexts c)" "has_key states a" for a
    proof (cases "JStr a \<in> set q")
      case True
      then show ?thesis using Visit.prems(3) that(2) by simp
    next
      case False
      with that have "(c, a) \<in> edge states nexts"
        using Visit.hyps(2) by (simp add: edge_def)
      then show ?thesis using closed c by blast
    qed
  qed
qed

lemma bfs_complete:
  assumes succs: "\<And>c. has_key states c \<Longrightarrow> succs states c = Some (nexts c)"
  shows "bfs states q R = Some r \<Longrightarrow>
         (\<forall>a b. a \<in> R \<and> (a, b) \<in> edge states nexts \<longrightarrow> b \<in> R \<or> JStr b \<in> set q) \<Longrightarrow>
         R \<subseteq> r \<and> (\<forall>a. JStr a \<in> set q \<and> has_key states a \<longrightarrow> a \<in> r) \<and>
         (\<forall>a b. a \<in> r \<and> (a, b) \<in> edge states nexts \<longrightarrow> b \<in> r)"
proof (induction q R rule: bfs_cases_induct [where states = states])
  case (Nil R)
  then show ?case by (auto simp: bfs_Nil)
next
  case (Unhashable cur q R)
  then show ?case by (simp add: bfs_unhashable)
next
  case (Skip cur q R)
  from Skip.prems(1) have run: "bfs states q R = Some r"
    using Skip.hyps by (simp add: bfs_skip)
  have "b \<in> R \<or> JStr b \<in> set q" if "a \<in> R" "(a, b) \<in> edge states nexts" for a b
  proof -
    from Skip.prems(2) that have "b \<in> R \<or> JStr b = cur \<or> JStr b \<in> set q"
      by auto
    moreover have "has_key states b" using that(2) by (simp add: edge_def)
    ultimately show ?thesis using Skip.hyps(2) [of b] by auto
  qed
  then have inv: "\<forall>a b. a \<in> R \<and> (a, b) \<in> edge states nexts \<longrightarrow> b \<in> R \<or> JStr b \<in> set q"
    by blast
  from Skip.IH [OF run inv] have *: "R \<subseteq> r"
    "\<forall>a. JStr a \<in> set q \<and> has_key states a \<longrightarrow> a \<in> r"
    "\<forall>a b. a \<in> r \<and> (a, b) \<in> edge states nexts \<longrightarrow> b \<in> r"
    by blast+
  have "a \<in> r" if "JStr a \<in> set (cur # q)" "has_key states a" for a
    using that * Skip.hyps(2) [of a] by auto
  with * show ?case by blast
next
  case (Visit c q R)
  have run: "bfs states (q @ nexts c) (insert c R) = Some r"
    using Visit.prems(1) Visit.hyps by (simp add: bfs_visit succs)
  have "b \<in> insert c R \<or> JStr b \<in> set (q @ nexts c)"
    if "a \<in> insert c R" "(a, b) \<in> edge states nexts" for a b
  proof (cases "a = c")
    case True
    with that(2) show ?thesis by (simp add: edge_def)
  next
    case False
    with that have "a \<in> R" by simp
    with Visit.prems(2) that(2) show ?thesis by auto
  qed
  then have inv: "\<forall>a b. a \<in> insert c R \<and> (a, b) \<in> edge states nexts \<longrightarrow>
                    b \<in> insert c R \<or> JStr b \<in> set (q @ nexts c)"
    by blast
  from Visit.IH [OF succs [OF Visit.hyps(2)] run inv] have *: "insert c R \<subseteq> r"
    "\<forall>a. JStr a \<in> set (q @ nexts c) \<and> has_key states a \<longrightarrow> a \<in> r"
    "\<forall>a b. a \<in> r \<and> (a, b) \<in> edge states nexts \<longrightarrow> b \<in> r"
    by blast+
  have "a \<in> r" if "JStr a \<in> set (JStr c # q)" "has_key states a" for a
    using that * by auto
  with * show ?case by blast
qed

lemma bfs_reachable:
  assumes succs: "\<And>c. has_key states c \<Longrightarrow> succs states c = Some (nexts c)"
    and hash: "\<And>c. has_key states c \<Longrightarrow> list_all hashable (nexts c)"
    and start: "hashable start"
  shows "bfs states [start] {} = Some (reachable_from states nexts start)"
proof -
  let ?S = "reachable_from states nexts start"
  from bfs_total [of states nexts "[start]" "{}", OF succs hash] start
  obtain r where run: "bfs states [start] {} = Some r"
    by auto
  have "r \<subseteq> ?S"
  proof (rule bfs_sound [of states nexts ?S "[start]" "{}" r, OF succs _ run])
    show "b \<in> ?S" if "a \<in> ?S" "(a, b) \<in> edge states nexts" for a b
      using that by (auto simp: reachable_from_def intro: rtrancl_into_rtrancl)
    show "{} \<subseteq> ?S" by simp
    show "a \<in> ?S" if "JStr a \<in> set [start]" "has_key states a" for a
      using that by (auto simp: reachable_from_def)
  qed
  moreover have "?S \<subseteq> r"
  proof
    fix c assume "c \<in> ?S"
    then obtain s where s: "start = JStr s" "has_key states s"
      and path: "(s, c) \<in> (edge states nexts)\<^sup>*"
      by (auto simp: reachable_from_def)
    have "\<forall>a b. a \<in> {} \<and> (a, b) \<in> edge states nexts \<longrightarrow> b \<in> {} \<or> JStr b \<in> set [start]"
      by simp
    from bfs_complete [of states nexts "[start]" "{}" r, OF succs run this]
    have in_r: "\<forall>a. JStr a \<in> set [start] \<and> has_key states a \<longrightarrow> a \<in> r"
      and closed: "\<forall>a b. a \<in> r \<and> (a, b) \<in> edge states nexts \<longrightarrow> b \<in> r"
      by blast+
    from in_r s have "s \<in> r" by simp
    with path show "c \<in> r"
      by (induction rule: rtrancl_induct) (use closed in blast)+
  qed
  ultimately show ?thesis using run by simp
qed

subsection \<open>The code's \<^verbatim>\<open>next_states\<close> and the specification's transitions\<close>

lemma py_eq_JStr: "py_eq x (JStr s) = (x = JStr s)"
  by (cases x) auto

lemma dict_get_get: "dict_get (JObj d) k dflt = Some (get d k dflt)"
  by (simp add: get_def)

lemma getitem_get: "has_key d k \<Longrightarrow> py_getitem (JObj d) k = Some (get d k dflt)"
  by (auto simp: has_key_def get_def map_of_eq_None_iff split: option.splits)

lemma py_in_dict: "py_in (JStr k) (JObj d) = Some (has_key d k)"
  by (simp add: has_key_def)

lemma rule_targets_Cons_dict:
  "rule_targets (JObj d # rules) =
     (case rule_targets rules of None \<Rightarrow> None | Some rest \<Rightarrow> Some (rule_next (JObj d) @ rest))"
proof (cases "map_of d (lit ''Next'')")
  case None
  then have "lit ''Next'' \<notin> fst ` set d"
    by (simp add: map_of_eq_None_iff)
  then show ?thesis
    by (simp add: rule_next_def has_key_def split: option.splits)
next
  case (Some x)
  then have "lit ''Next'' \<in> fst ` set d"
    by (metis map_of_eq_None_iff option.distinct(1))
  with Some show ?thesis
    by (simp add: rule_next_def has_key_def get_def split: option.splits)
qed

lemma rule_targets_typed:
  "list_all is_dict rules \<Longrightarrow> rule_targets rules = Some (concat (map rule_next rules))"
proof (induction rules)
  case Nil
  show ?case by simp
next
  case (Cons rule rules)
  then obtain d where d: "rule = JObj d" by (cases rule) auto
  from Cons have "rule_targets rules = Some (concat (map rule_next rules))"
    by simp
  then show ?case
    unfolding d rule_targets_Cons_dict by simp
qed

lemma rules_typed_iter:
  "rules_typed x \<Longrightarrow> py_iter x = Some (rule_list x) \<and> list_all is_dict (rule_list x)"
  by (cases x) (auto simp: rules_typed_def rule_list_def)

lemma collect_typed:
  assumes "transitions_typed state_def"
  shows "collect_next_states state_def = Some (transition_targets state_def)"
proof -
  have catch: "py_iter (get state_def (lit ''Catch'') (JArr [])) =
                 Some (rule_list (get state_def (lit ''Catch'') (JArr [])))"
    "rule_targets (rule_list (get state_def (lit ''Catch'') (JArr []))) =
       Some (concat (map rule_next (rule_list (get state_def (lit ''Catch'') (JArr [])))))"
    using assms rules_typed_iter rule_targets_typed by (auto simp: transitions_typed_def)
  have branches: "\<exists>bs. py_iter (get state_def (lit ''Branches'') (JArr [])) = Some bs"
    using assms by (cases "get state_def (lit ''Branches'') (JArr [])")
      (auto simp: transitions_typed_def)
  show ?thesis
  proof (cases "get state_def (lit ''Type'') JNull = JStr (lit ''Choice'')")
    case True
    then have choices: "py_iter (get state_def (lit ''Choices'') (JArr [])) =
                 Some (rule_list (get state_def (lit ''Choices'') (JArr [])))"
      "rule_targets (rule_list (get state_def (lit ''Choices'') (JArr []))) =
         Some (concat (map rule_next (rule_list (get state_def (lit ''Choices'') (JArr [])))))"
      using assms rules_typed_iter rule_targets_typed by (auto simp: transitions_typed_def)
    from True catch choices branches show ?thesis
      by (auto simp: collect_next_states_def transition_targets_def py_eq_JStr)
  next
    case False
    with catch branches show ?thesis
      by (auto simp: collect_next_states_def transition_targets_def py_eq_JStr)
  qed
qed

lemma get_in_set:
  "has_key states c \<Longrightarrow> (c, get states c dflt) \<in> set states"
  by (auto simp: has_key_def get_def map_of_eq_None_iff split: option.splits dest: map_of_SomeD)

lemma succs_typed:
  assumes "states_typed states" "has_key states c"
  shows "succs states c = Some (state_targets states c)"
    and "list_all hashable (state_targets states c)"
proof -
  from get_in_set [OF assms(2), of JNull] assms(1)
  have t: "case get states c JNull of JObj sd \<Rightarrow> transitions_typed sd | _ \<Rightarrow> True"
    by (auto simp: states_typed_def list_all_iff)
  show "succs states c = Some (state_targets states c)"
    using t collect_typed by (cases "get states c JNull") (auto simp: succs_def state_targets_def)
  show "list_all hashable (state_targets states c)"
    using t by (cases "get states c JNull") (auto simp: state_targets_def transitions_typed_def)
qed

lemma fold_add_warning:
  "fold (\<lambda>state w. add_warning (f state) w) xs v = v\<lparr>warnings := warnings v @ map f xs\<rparr>"
  by (induction xs arbitrary: v) (simp_all add: add_warning_def)

lemma detect_unreachable_run:
  assumes "asl_definition v = JObj d"
    and "get d (lit ''States'') (JObj []) = JObj states" "states \<noteq> []"
    and "truthy (get d (lit ''StartAt'') JNull)"
    and "bfs states [get d (lit ''StartAt'') JNull] {} = Some reachable"
  shows "detect_unreachable_states v =
           Some (v\<lparr>warnings := warnings v @
                   map unreachable_message (filter (\<lambda>k. k \<notin> reachable) (map fst states))\<rparr>)"
  using assms by (simp add: detect_unreachable_states_def get_def [symmetric] fold_add_warning Let_def)

lemma detect_unreachable_skip:
  assumes "asl_definition v = JObj d"
    and "\<not> truthy (get d (lit ''States'') (JObj [])) \<or> \<not> truthy (get d (lit ''StartAt'') JNull)"
  shows "detect_unreachable_states v = Some v"
  using assms by (auto simp: detect_unreachable_states_def get_def [symmetric])


lemma typed_run:
  assumes "asl_definition v = JObj d"
    and "get d (lit ''States'') (JObj []) = JObj states" "states \<noteq> []"
    and "truthy (get d (lit ''StartAt'') JNull)" "hashable (get d (lit ''StartAt'') JNull)"
    and "states_typed states"
  shows "detect_unreachable_states v =
           Some (v\<lparr>warnings := warnings v @ map unreachable_message
                   (filter (\<lambda>k. k \<notin> reachable_from states (state_targets states)
                                      (get d (lit ''StartAt'') JNull))
                      (map fst states))\<rparr>)"
proof -
  have "bfs states [get d (lit ''StartAt'') JNull] {} =
          Some (reachable_from states (state_targets states) (get d (lit ''StartAt'') JNull))"
    using assms(5,6) by (intro bfs_reachable succs_typed) auto
  from detect_unreachable_run [OF assms(1-4) this] show ?thesis .
qed


lemma succeed_only_targets:
  "transition_targets [(lit ''Type'', JStr (lit ''Succeed''))] = []"
  by (simp add: transition_targets_def has_key_def get_def rule_list_def lit_def)

subsection \<open>The warnings of the stage\<close>

text \<open>
  C3, amended. Let \<^verbatim>\<open>States\<close> be a non-empty mapping with well-formed transition
  fields and \<^verbatim>\<open>StartAt\<close> a value that is truthy and hashable (a non-empty string, for
  one). Then the work-list loop of \<^verbatim>\<open>_detect_unreachable_states\<close> ends, its visited
  set is the set of keys reachable from \<^verbatim>\<open>StartAt\<close> along \<^verbatim>\<open>Next\<close>,
  \<^verbatim>\<open>Choices[i].Next\<close> and \<^verbatim>\<open>Default\<close> (of Choice states) and \<^verbatim>\<open>Catch[i].Next\<close>,
  which does not depend on the order of the traversal, and the stage appends one
  unreachable warning for each key outside that set and nothing else. The stage does
  nothing when \<^verbatim>\<open>States\<close> or \<^verbatim>\<open>StartAt\<close> is missing, empty or otherwise falsy. On
  the three-state document the stage warns about \<^verbatim>\<open>C\<close> only, and \<^verbatim>\<open>validate\<close>
  returns true with that single warning.
\<close>

theorem unreachable_states_warned:
  "(asl_definition v = JObj d \<and> get d (lit ''States'') (JObj []) = JObj states \<and>
    states \<noteq> [] \<and> distinct (map fst states) \<and> states_typed states \<and>
    truthy (get d (lit ''StartAt'') JNull) \<and> hashable (get d (lit ''StartAt'') JNull) \<longrightarrow>
      (\<exists>visited unreachable.
         bfs states [get d (lit ''StartAt'') JNull] {} = Some visited \<and>
         visited = reachable_from states (state_targets states) (get d (lit ''StartAt'') JNull) \<and>
         detect_unreachable_states v =
           Some (v\<lparr>warnings := warnings v @ map unreachable_message unreachable\<rparr>) \<and>
         distinct unreachable \<and> set unreachable = set (map fst states) - visited)) \<and>
   (asl_definition v' = JObj d' \<and>
    (\<not> truthy (get d' (lit ''States'') (JObj [])) \<or> \<not> truthy (get d' (lit ''StartAt'') JNull)) \<longrightarrow>
      detect_unreachable_states v' = Some v') \<and>
   detect_unreachable_states (loaded three_state_doc) =
     Some ((loaded three_state_doc)\<lparr>warnings := [unreachable_message (lit ''C'')]\<rparr>) \<and>
   validate no_repr (Parsed three_state_doc) (init (lit ''f'')) =
     Some (True, (loaded three_state_doc)\<lparr>warnings := [unreachable_message (lit ''C'')]\<rparr>)"
proof (intro conjI impI)
  assume a: "asl_definition v = JObj d \<and> get d (lit ''States'') (JObj []) = JObj states \<and>
    states \<noteq> [] \<and> distinct (map fst states) \<and> states_typed states \<and>
    truthy (get d (lit ''StartAt'') JNull) \<and> hashable (get d (lit ''StartAt'') JNull)"
  let ?start = "get d (lit ''StartAt'') JNull"
  let ?S = "reachable_from states (state_targets states) ?start"
  from a have run: "bfs states [?start] {} = Some ?S"
    by (intro bfs_reachable succs_typed) auto
  from a have "detect_unreachable_states v =
      Some (v\<lparr>warnings := warnings v @ map unreachable_message
                (filter (\<lambda>k. k \<notin> ?S) (map fst states))\<rparr>)"
    by (intro typed_run) auto
  moreover from a have "distinct (filter (\<lambda>k. k \<notin> ?S) (map fst states))"
    by simp
  moreover have "set (filter (\<lambda>k. k \<notin> ?S) (map fst states)) = set (map fst states) - ?S"
    by auto
  ultimately show "\<exists>visited unreachable.
         bfs states [?start] {} = Some visited \<and> visited = ?S \<and>
         detect_unreachable_states v =
           Some (v\<lparr>warnings := warnings v @ map unreachable_message unreachable\<rparr>) \<and>
         distinct unreachable \<and> set unreachable = set (map fst states) - visited"
    using run by blast
next
  assume "asl_definition v' = JObj d' \<and>
    (\<not> truthy (get d' (lit ''States'') (JObj [])) \<or> \<not> truthy (get d' (lit ''StartAt'') JNull))"
  then show "detect_unreachable_states v' = Some v'"
    by (intro detect_unreachable_skip) auto
next
  show "detect_unreachable_states (loaded three_state_doc) =
     Some ((loaded three_state_doc)\<lparr>warnings := [unreachable_message (lit ''C'')]\<rparr>)"
    by code_simp
next
  show "validate no_repr (Parsed three_state_doc) (init (lit ''f'')) =
     Some (True, (loaded three_state_doc)\<lparr>warnings := [unreachable_message (lit ''C'')]\<rparr>)"
    by code_simp
qed

theorem unreachable_states_warned_witness:
  "(\<exists>visited unreachable.
      bfs three_states [get (doc_fields three_state_doc) (lit ''StartAt'') JNull] {} =
        Some visited \<and>
      visited = reachable_from three_states (state_targets three_states)
                  (get (doc_fields three_state_doc) (lit ''StartAt'') JNull) \<and>
      detect_unreachable_states (loaded three_state_doc) =
        Some ((loaded three_state_doc)\<lparr>warnings := warnings (loaded three_state_doc) @
                map unreachable_message unreachable\<rparr>) \<and>
      distinct unreachable \<and> set unreachable = set (map fst three_states) - visited) \<and>
   detect_unreachable_states (loaded empty_start_doc) = Some (loaded empty_start_doc)"
proof -
  let ?d = "doc_fields three_state_doc" and ?d' = "doc_fields empty_start_doc"
  have 1: "asl_definition (loaded three_state_doc) = JObj ?d"
    "asl_definition (loaded empty_start_doc) = JObj ?d'"
    by (simp_all add: loaded_def three_state_doc_def empty_start_doc_def doc_fields_def)
  have 2: "get ?d (lit ''States'') (JObj []) = JObj three_states"
    by (simp add: three_state_doc_def doc_fields_def get_def lit_def)
  have 3: "three_states \<noteq> []" "distinct (map fst three_states)"
    by (simp_all add: three_states_def lit_def)
  have 4: "states_typed three_states"
    by code_simp
  have 5: "truthy (get ?d (lit ''StartAt'') JNull)" "hashable (get ?d (lit ''StartAt'') JNull)"
    "\<not> truthy (get ?d' (lit ''StartAt'') JNull)"
    by (simp_all add: three_state_doc_def empty_start_doc_def doc_fields_def get_def lit_def)
  from unreachable_states_warned [of "loaded three_state_doc" ?d three_states
      "loaded empty_start_doc" ?d'] 1 2 3 4 5
  show ?thesis by blast
qed

text \<open>
  C3 as stated fails on a \<^verbatim>\<open>StartAt\<close> that is present and is the empty string, even
  when a state has that name: the stage returns at once, so the key \<^verbatim>\<open>B\<close>, which
  no transition reaches, gets no warning.
\<close>

theorem empty_start_not_traversed_counterexample:
  "asl_definition (loaded empty_start_doc) =
     JObj [(lit ''StartAt'', JStr []), (lit ''States'', JObj empty_start_states)] \<and>
   empty_start_states \<noteq> [] \<and>
   has_key empty_start_states (lit ''B'') \<and>
   lit ''B'' \<notin> reachable_from empty_start_states (state_targets empty_start_states) (JStr []) \<and>
   detect_unreachable_states (loaded empty_start_doc) = Some (loaded empty_start_doc) \<and>
   warnings (loaded empty_start_doc) = []"
proof -
  have "state_targets empty_start_states a = []" for a
    by (simp add: state_targets_def empty_start_states_def get_def succeed_only_targets)
  then have "edge empty_start_states (state_targets empty_start_states) = {}"
    by (simp add: edge_def)
  then have "lit ''B'' \<notin> reachable_from empty_start_states (state_targets empty_start_states) (JStr [])"
    by (simp add: reachable_from_def lit_def)
  moreover have "detect_unreachable_states (loaded empty_start_doc) = Some (loaded empty_start_doc)"
    by code_simp
  ultimately show ?thesis
    by (simp add: loaded_def empty_start_doc_def empty_start_states_def has_key_def init_def)
qed




section \<open>Exceptions after the parse\<close>

text \<open>
  C2. The stages of \<^verbatim>\<open>validate\<close> catch nothing, so the claim that no exception
  propagates fails on documents that parse: on the root \<^verbatim>\<open>[]\<close> the call
  \<^verbatim>\<open>self.definition.get\<close> raises; on a \<^verbatim>\<open>States\<close> that is a list
  \<^verbatim>\<open>_validate_required_fields\<close> records that it must be an object and
  \<^verbatim>\<open>states.items()\<close> raises in the next stage but one; on the entry \<^verbatim>\<open>1\<close> of
  \<^verbatim>\<open>Choices\<close>, of \<^verbatim>\<open>Catch\<close> and on the \<^verbatim>\<open>Credentials\<close> \<^verbatim>\<open>1\<close> the test
  \<^verbatim>\<open>"Next" in choice\<close> (or its like) raises. In each case \<^verbatim>\<open>validate\<close> returns
  nothing.
\<close>

theorem validate_raises_on_parsed_documents:
  "validate crepr (Parsed (JArr [])) (init path) = None \<and>
   validate_required_fields (loaded states_list_doc) =
     Some (add_error (quoted (lit ''States'') @ lit '' must be an object'') (loaded states_list_doc)) \<and>
   validate crepr (Parsed states_list_doc) (init path) = None \<and>
   validate crepr (Parsed scalar_choice_doc) (init path) = None \<and>
   validate crepr (Parsed scalar_catch_doc) (init path) = None \<and>
   validate crepr (Parsed scalar_credentials_doc) (init path) = None"
proof (intro conjI)
  show "validate crepr (Parsed (JArr [])) (init path) = None"
    by code_simp
  show "validate_required_fields (loaded states_list_doc) =
     Some (add_error (quoted (lit ''States'') @ lit '' must be an object'') (loaded states_list_doc))"
    by code_simp
  show "validate crepr (Parsed states_list_doc) (init path) = None"
    by code_simp
  show "validate crepr (Parsed scalar_choice_doc) (init path) = None"
    by code_simp
  show "validate crepr (Parsed scalar_catch_doc) (init path) = None"
    by code_simp
  show "validate crepr (Parsed scalar_credentials_doc) (init path) = None"
    by code_simp
qed

section \<open>Terminal states\<close>

lemma in_terminal_types:
  "hashable t \<Longrightarrow>
   in_str_set t TERMINAL_STATE_TYPES =
     Some (t \<in> {JStr (lit ''Succeed''), JStr (lit ''Fail'')})"
  by (cases t) (auto simp: in_str_set_def TERMINAL_STATE_TYPES_def)

lemma collect_terminal_step:
  "type_hashable (snd item) \<Longrightarrow>
   collect_terminal item acc = Some (if is_terminal (snd item) then acc @ [fst item] else acc)"
  by (cases item; cases "snd item")
     (auto simp: collect_terminal_def type_hashable_def is_terminal_def in_terminal_types Let_def)

lemma collect_terminal_fold:
  "list_all type_hashable (map snd states) \<Longrightarrow>
   fold_opt collect_terminal states acc =
     Some (acc @ map fst (filter (\<lambda>kv. is_terminal (snd kv)) states))"
proof (induction states arbitrary: acc)
  case Nil
  show ?case by simp
next
  case (Cons item states)
  then show ?case by (simp add: collect_terminal_step)
qed

lemma terminal_states_run:
  assumes "asl_definition v = JObj d" "get d (lit ''States'') (JObj []) = JObj states"
    and "list_all type_hashable (map snd states)"
  shows "validate_terminal_states v =
           Some (if list_ex is_terminal (map snd states) then v
                 else add_error no_terminal_message v)"
proof -
  have "(filter (\<lambda>kv. is_terminal (snd kv)) states = []) = (\<not> list_ex is_terminal (map snd states))"
    by (auto simp: filter_empty_conv list_ex_iff)
  with assms collect_terminal_fold [OF assms(3), of "[]"] show ?thesis
    by (simp add: validate_terminal_states_def get_def [symmetric])
qed

text \<open>
  C4, amended. \<^verbatim>\<open>_validate_terminal_states\<close> scans every state of \<^verbatim>\<open>States\<close>,
  reachable or not, and, every \<^verbatim>\<open>Type\<close> being hashable, appends the single
  no-terminal-state error exactly when no state is an object with \<^verbatim>\<open>Type\<close>
  \<^verbatim>\<open>Succeed\<close> or \<^verbatim>\<open>Fail\<close> or with a truthy \<^verbatim>\<open>End\<close>; the value of \<^verbatim>\<open>StartAt\<close>
  plays no part. On the document whose only terminal state \<^verbatim>\<open>C\<close> is reported
  unreachable, no such error is appended.
\<close>

theorem no_terminal_state_error:
  "(asl_definition v = JObj d \<and> get d (lit ''States'') (JObj []) = JObj states \<and>
    list_all type_hashable (map snd states) \<longrightarrow>
      validate_terminal_states v =
        Some (if list_ex is_terminal (map snd states) then v
              else v\<lparr>errors := errors v @ [no_terminal_message]\<rparr>)) \<and>
   validate_terminal_states (loaded unreachable_terminal_doc) = Some (loaded unreachable_terminal_doc) \<and>
   detect_unreachable_states (loaded unreachable_terminal_doc) =
     Some ((loaded unreachable_terminal_doc)\<lparr>warnings := [unreachable_message (lit ''C'')]\<rparr>)"
proof (intro conjI impI)
  assume "asl_definition v = JObj d \<and> get d (lit ''States'') (JObj []) = JObj states \<and>
    list_all type_hashable (map snd states)"
  then show "validate_terminal_states v =
        Some (if list_ex is_terminal (map snd states) then v
              else v\<lparr>errors := errors v @ [no_terminal_message]\<rparr>)"
    using terminal_states_run [of v d states] by (simp add: add_error_def)
next
  show "validate_terminal_states (loaded unreachable_terminal_doc) =
          Some (loaded unreachable_terminal_doc)"
    by code_simp
next
  show "detect_unreachable_states (loaded unreachable_terminal_doc) =
     Some ((loaded unreachable_terminal_doc)\<lparr>warnings := [unreachable_message (lit ''C'')]\<rparr>)"
    by code_simp
qed

theorem no_terminal_state_error_witness:
  "validate_terminal_states (loaded loop_doc) =
     Some ((loaded loop_doc)\<lparr>errors := [no_terminal_message]\<rparr>)"
proof -
  let ?d = "doc_fields loop_doc"
  let ?states = "[(lit ''A'', JObj [(lit ''Type'', JStr (lit ''Pass'')), (lit ''Next'', JStr (lit ''A''))])]"
  have 1: "asl_definition (loaded loop_doc) = JObj ?d"
    by (simp add: loaded_def loop_doc_def one_state_doc_def doc_fields_def)
  have 2: "get ?d (lit ''States'') (JObj []) = JObj ?states"
    by (simp add: loop_doc_def one_state_doc_def doc_fields_def get_def lit_def)
  have 3: "list_all type_hashable (map snd ?states)"
    by code_simp
  have 4: "\<not> list_ex is_terminal (map snd ?states)"
    by code_simp
  have 5: "errors (loaded loop_doc) = []"
    by (simp add: loaded_def init_def)
  from no_terminal_state_error [of "loaded loop_doc" ?d ?states] 1 2 3 4 5
  show ?thesis by simp
qed

text \<open>
  C4 as stated fails on a state with \<^verbatim>\<open>"End": "yes"\<close>: its \<^verbatim>\<open>Type\<close> is neither
  \<^verbatim>\<open>Succeed\<close> nor \<^verbatim>\<open>Fail\<close> and its \<^verbatim>\<open>End\<close> is not \<^verbatim>\<open>true\<close>, yet the truthy
  string makes it terminal and no error is appended.
\<close>

theorem truthy_end_is_terminal_counterexample:
  "asl_definition (loaded truthy_end_doc) =
     JObj [(lit ''StartAt'', JStr (lit ''A'')),
           (lit ''States'', JObj [(lit ''A'', JObj [(lit ''Type'', JStr (lit ''Pass'')),
                                                   (lit ''End'', JStr (lit ''yes''))])])] \<and>
   JStr (lit ''Pass'') \<notin> {JStr (lit ''Succeed''), JStr (lit ''Fail'')} \<and>
   JStr (lit ''yes'') \<noteq> JBool True \<and>
   validate_terminal_states (loaded truthy_end_doc) = Some (loaded truthy_end_doc) \<and>
   errors (loaded truthy_end_doc) = []"
proof -
  have "validate_terminal_states (loaded truthy_end_doc) = Some (loaded truthy_end_doc)"
    by code_simp
  then show ?thesis
    by (simp add: loaded_def truthy_end_doc_def one_state_doc_def init_def lit_def)
qed

end
